theory Spec2Isabelle
  imports Main "HOL-Library.Multiset"
begin

section \<open>Printing\<close>

text \<open>
  \<open>print(a, b, ...)\<close> writes to the stream, one \<open>write\<close> call each, the text of the
  first argument, then for every further argument the separator (a space) and the text
  of the argument, and at last the end of line. A \<open>write\<close> may raise (the stream cannot
  encode the text, or is closed): then what was written before stays written and the
  rest is not. The stream is the list of the chunks written so far; which chunk the
  stream refuses, and with which exception, is a parameter.
\<close>

fun sep_args :: "'c \<Rightarrow> 'c list \<Rightarrow> 'c list" where
  "sep_args sep [] = []"
| "sep_args sep [a] = [a]"
| "sep_args sep (a # b # cs) = a # sep # sep_args sep (b # cs)"

fun write_all :: "('c \<Rightarrow> 'e option) \<Rightarrow> 'c list \<Rightarrow> 'c list \<Rightarrow> 'e option \<times> 'c list" where
  "write_all refuses [] out = (None, out)"
| "write_all refuses (c # cs) out =
     (case refuses c of
        Some e \<Rightarrow> (Some e, out)
      | None \<Rightarrow> write_all refuses cs (out @ [c]))"

definition py_print ::
    "('c \<Rightarrow> 'e option) \<Rightarrow> 'c \<Rightarrow> 'c \<Rightarrow> 'c list \<Rightarrow> 'c list \<Rightarrow> 'e option \<times> 'c list" where
  "py_print refuses sep end args out = write_all refuses (sep_args sep args @ [end]) out"

section \<open>check\_uniqueness.py: the duplicate checker\<close>

text \<open>
  Items are values of an arbitrary type \<open>'a\<close> compared with HOL equality, as Python
  compares strings. A Python \<open>set\<close> is modelled by the list of its elements, without
  repetition, in the order they were added. Python's \<open>set\<close> hashes every element it
  stores or looks up and raises \<open>TypeError\<close> on an unhashable one; which values are
  hashable is the predicate \<open>hashable\<close> handed to every set operation.
\<close>

datatype py_error = TypeError | UnicodeEncodeError | OSError

definition set_add :: "('a \<Rightarrow> bool) \<Rightarrow> 'a list \<Rightarrow> 'a \<Rightarrow> py_error + 'a list" where
  "set_add hashable s x =
     (if hashable x then Inr (if x \<in> set s then s else s @ [x]) else Inl TypeError)"

definition set_contains :: "('a \<Rightarrow> bool) \<Rightarrow> 'a list \<Rightarrow> 'a \<Rightarrow> py_error + bool" where
  "set_contains hashable s x = (if hashable x then Inr (x \<in> set s) else Inl TypeError)"

text \<open>\<open>set(items)\<close>: the elements are added one by one, from the left.\<close>

fun set_from :: "('a \<Rightarrow> bool) \<Rightarrow> 'a list \<Rightarrow> 'a list \<Rightarrow> py_error + 'a list" where
  "set_from hashable [] s = Inr s"
| "set_from hashable (x # xs) s =
     (case set_add hashable s x of
        Inl e \<Rightarrow> Inl e
      | Inr s' \<Rightarrow> set_from hashable xs s')"

definition py_set :: "('a \<Rightarrow> bool) \<Rightarrow> 'a list \<Rightarrow> py_error + 'a list" where
  "py_set hashable items = set_from hashable items []"

text \<open>
  What is written to standard output: a text, or the text of \<open>list(duplicates)\<close>,
  kept as the list it shows.
\<close>

datatype 'a chunk = Str string | Items "'a list"

datatype completion = Returned | Raised py_error

text \<open>
  The \<open>for item in items\<close> loop of lines 14 to 18, on the pair of the sets
  \<open>seen\<close> and \<open>duplicates\<close>.
\<close>

fun scan_items ::
    "('a \<Rightarrow> bool) \<Rightarrow> 'a list \<Rightarrow> 'a list \<times> 'a list \<Rightarrow> py_error + 'a list \<times> 'a list" where
  "scan_items hashable [] (seen, duplicates) = Inr (seen, duplicates)"
| "scan_items hashable (item # items) (seen, duplicates) =
     (case set_contains hashable seen item of
        Inl e \<Rightarrow> Inl e
      | Inr True \<Rightarrow>
          (case set_add hashable duplicates item of
             Inl e \<Rightarrow> Inl e
           | Inr duplicates' \<Rightarrow> scan_items hashable items (seen, duplicates'))
      | Inr False \<Rightarrow>
          (case set_add hashable seen item of
             Inl e \<Rightarrow> Inl e
           | Inr seen' \<Rightarrow> scan_items hashable items (seen', duplicates)))"

text \<open>
  What a run depends on besides the items: which values are hashable, the order in which
  Python iterates over a set (it depends on the hashes, which for strings change from
  one run to the next), and which writes standard output refuses.
\<close>

record 'a runtime =
  hashable :: "'a \<Rightarrow> bool"
  iteration :: "'a list \<Rightarrow> 'a list"
  write_error :: "'a chunk \<Rightarrow> py_error option"

text \<open>
  \<open>list(s)\<close>: the elements of the set in the iteration order. The order the runtime
  gives is taken when it lists exactly the elements of the set, each once; any such
  order can occur.
\<close>

definition py_list :: "'a runtime \<Rightarrow> 'a list \<Rightarrow> 'a list" where
  "py_list env s =
     (let l = iteration env s in if distinct l \<and> set l = set s then l else s)"

definition print_out :: "'a runtime \<Rightarrow> 'a chunk list \<Rightarrow> 'a chunk list \<Rightarrow> completion \<times> 'a chunk list" where
  "print_out env args out =
     (case py_print (write_error env) (Str '' '') (Str [CHR 0x0A]) args out of
        (Some e, out') \<Rightarrow> (Raised e, out')
      | (None, out') \<Rightarrow> (Returned, out'))"

text \<open>
  \<open>check_list_uniqueness(items)\<close> returns nothing; what it does is print. The model
  takes the standard output before the call and gives how the call ended together with
  the standard output after it.
\<close>

definition check_list_uniqueness ::
    "'a runtime \<Rightarrow> 'a list \<Rightarrow> 'a chunk list \<Rightarrow> completion \<times> 'a chunk list" where
  "check_list_uniqueness env items out =
     (case py_set (hashable env) items of
        Inl e \<Rightarrow> (Raised e, out)
      | Inr s \<Rightarrow>
          if length items = length s
          then print_out env [Str ''All items in the list are unique!''] out
          else
            (case print_out env [Str ''There are duplicate items in the list.''] out of
               (Raised e, out1) \<Rightarrow> (Raised e, out1)
             | (Returned, out1) \<Rightarrow>
                 (case scan_items (hashable env) items ([], []) of
                    Inl e \<Rightarrow> (Raised e, out1)
                  | Inr (seen, duplicates) \<Rightarrow>
                      print_out env
                        [Str ''Duplicate items found:'', Items (py_list env duplicates)]
                        out1)))"

text \<open>
  The Duplicate Report of the specification is read off what a call prints: the verdict
  is that the confirmation line was printed, the duplicate set is what was listed. It is
  read on a standard output that was empty and accepts every write (with the sets
  iterated in the order of insertion; the set that is read does not depend on the order).
\<close>

record 'a report =
  unique :: bool
  duplicates :: "'a set"

fun listed :: "'a chunk \<Rightarrow> 'a set" where
  "listed (Str s) = {}"
| "listed (Items l) = set l"

definition report_of :: "completion \<times> 'a chunk list \<Rightarrow> py_error + 'a report" where
  "report_of run =
     (case run of
        (Raised e, out) \<Rightarrow> Inl e
      | (Returned, out) \<Rightarrow>
          Inr \<lparr>unique = (Str ''All items in the list are unique!'' \<in> set out),
               duplicates = \<Union> (listed ` set out)\<rparr>)"

definition plain :: "('a \<Rightarrow> bool) \<Rightarrow> 'a runtime" where
  "plain h = \<lparr>hashable = h, iteration = (\<lambda>s. s), write_error = (\<lambda>c. None)\<rparr>"

definition check :: "('a \<Rightarrow> bool) \<Rightarrow> 'a list \<Rightarrow> py_error + 'a report" where
  "check h items = report_of (check_list_uniqueness (plain h) items [])"

text \<open>
  The other strategy the specification allows: always run the detailed scan, and call
  the list unique when the scan found no duplicate.
\<close>

definition check_detailed :: "('a \<Rightarrow> bool) \<Rightarrow> 'a list \<Rightarrow> py_error + 'a report" where
  "check_detailed h items =
     (case scan_items h items ([], []) of
        Inl e \<Rightarrow> Inl e
      | Inr (seen, dups) \<Rightarrow> Inr \<lparr>unique = (dups = []), duplicates = set dups\<rparr>)"

text \<open>Every Python string is hashable.\<close>

definition str_hashable :: "string \<Rightarrow> bool" where
  "str_hashable s = True"

declare str_hashable_def [simp]

text \<open>
  Items of two kinds for running the model: a string, which is hashable, and a list of
  strings, which is not. A standard output that encodes ASCII only refuses every text
  with a byte from 128 on (strings are taken as their UTF-8 bytes) and every listing
  that shows such a string; a standard output that encodes UTF-8 accepts them. Both
  runtimes iterate over a set from the element added last to the one added first.
\<close>

datatype item = StrItem string | ListItem "string list"







section \<open>send\_batch.py: writing and submitting the batch file\<close>

text \<open>
  A Python string is modelled by the bytes of its UTF-8 encoding: the three non-ASCII
  characters in the messages of the script (a dash and an ellipsis) appear as their three
  bytes each, and an apostrophe inside a message as \<open>CHR 0x27\<close>. A Python string can
  hold a lone surrogate (a code point from U+D800 to U+DFFF), which strict UTF-8 refuses
  to encode; it is kept as the three bytes the scheme of UTF-8 gives it, \<open>0xED\<close>, then
  a byte from \<open>0xA0\<close> on, then a third. In the bytes of a string \<open>0xED\<close> only ever
  starts such a triple or the triple of a code point from U+D000 to U+D7FF, whose second
  byte is below \<open>0xA0\<close>.
\<close>

fun has_surrogate :: "string \<Rightarrow> bool" where
  "has_surrogate (a # b # cs) =
     (a = CHR 0xED \<and> (160 :: nat) \<le> of_char b \<or> has_surrogate (b # cs))"
| "has_surrogate cs = False"

text \<open>
  The JSON values the script builds: strings, arrays and objects (a \<open>dict\<close> literal
  keeps the order of its keys).
\<close>

datatype json = JString string | JArray "json list" | JObject "(string \<times> json) list"

definition JSONL_PATH :: string where
  "JSONL_PATH = ''data/ecodev_2000_problems.jsonl''"

definition MODEL :: string where
  "MODEL = ''o4-mini''"

definition EFFORT :: string where
  "EFFORT = ''high''"

text \<open>
  \<open>str\<close> of a natural number, as the f-strings on lines 57 and 103 format \<open>idx\<close>
  and \<open>len(problems)\<close>: the decimal digits, most significant first.
\<close>

fun str_nat :: "nat \<Rightarrow> string" where
  "str_nat n =
     (if n < 10 then [''0123456789'' ! n]
      else str_nat (n div 10) @ [''0123456789'' ! (n mod 10)])"

declare str_nat.simps [simp del]


text \<open>
  Exceptions: \<open>ImportError\<close>, which \<open>load_problems\<close> catches, and any other
  subclass of \<open>Exception\<close> (an \<open>OSError\<close> of the file system, a
  \<open>UnicodeEncodeError\<close>, an error of the API client); both carry the text
  \<open>str(exc)\<close> prints. A call ends by returning a value, by \<open>sys.exit(n)\<close> (which
  \<open>except Exception\<close> does not catch), or by an exception.
\<close>

datatype exn = ImportError string | Exception string

fun exn_str :: "exn \<Rightarrow> string" where
  "exn_str (ImportError m) = m"
| "exn_str (Exception m) = m"

datatype 'a outcome = Return 'a | Exit int | Raise exn

text \<open>
  What the script cannot decide itself is its environment:
  \<^item> what \<open>from data.problem_list import problems\<close> gives: an exception, or the object
    bound to \<open>problems\<close>, a list (of strings, as the annotation says) or something that
    is not a list;
  \<^item> which writes standard output refuses, and with which exception (it depends on the
    encoding of the stream);
  \<^item> \<open>path.open("w")\<close>, which may raise for a path, and the exceptions the runtime
    raises when a text with a lone surrogate is written to a UTF-8 file and when a
    missing file is opened for reading;
  \<^item> the library functions \<open>json.dumps(\<cdot>, ensure_ascii=False)\<close> and
    \<open>pathlib.Path.stem\<close>;
  \<^item> the OpenAI client: building it (\<open>OpenAI(api_key=env.api_key)\<close>) may raise;
    \<open>files.create\<close> answers to the uploaded content and \<open>batches.create\<close> to the
    file id and the description with an id or an exception.
\<close>

datatype pyobj = PyList "string list" | NotAList

record api =
  new_client :: "exn option"
  files_create :: "string \<Rightarrow> exn + string"
  batches_create :: "string \<Rightarrow> string \<Rightarrow> exn + string"

record environ =
  import_problems :: "exn + pyobj"
  stdout_error :: "string \<Rightarrow> exn option"
  open_w :: "string \<Rightarrow> exn option"
  encode_error :: "string \<Rightarrow> exn"
  missing_file :: "string \<Rightarrow> exn"
  json_dumps :: "json \<Rightarrow> string"
  path_stem :: "string \<Rightarrow> string"
  openai :: api

text \<open>
  The state the script changes: the files on disk (path to content) and the chunks
  written to standard output.
\<close>

record system =
  files :: "string \<rightharpoonup> string"
  stdout :: "string list"

text \<open>
  One statement after another: the second runs in the state the first left, unless the
  first ended by \<open>sys.exit\<close> or an exception.
\<close>

definition then_run ::
    "'a outcome \<times> system \<Rightarrow> ('a \<Rightarrow> system \<Rightarrow> 'b outcome \<times> system) \<Rightarrow> 'b outcome \<times> system" where
  "then_run r f =
     (case r of
        (Return x, s) \<Rightarrow> f x s
      | (Exit n, s) \<Rightarrow> (Exit n, s)
      | (Raise e, s) \<Rightarrow> (Raise e, s))"

definition print_stdout :: "environ \<Rightarrow> string list \<Rightarrow> system \<Rightarrow> unit outcome \<times> system" where
  "print_stdout env args sys =
     (case py_print (stdout_error env) '' '' [CHR 0x0A] args (stdout sys) of
        (Some e, out) \<Rightarrow> (Raise e, sys\<lparr>stdout := out\<rparr>)
      | (None, out) \<Rightarrow> (Return (), sys\<lparr>stdout := out\<rparr>))"

definition load_problems :: "environ \<Rightarrow> system \<Rightarrow> string list outcome \<times> system" where
  "load_problems env sys =
     (case import_problems env of
        Inl (ImportError m) \<Rightarrow>
          then_run
            (print_stdout env [''Could not import `data.problem_list.problems`:'', m] sys)
            (\<lambda>u sys1. (Exit 1, sys1))
      | Inl (Exception m) \<Rightarrow> (Raise (Exception m), sys)
      | Inr NotAList \<Rightarrow>
          then_run
            (print_stdout env
               [''`data.problem_list.problems` should be a list of strings.''] sys)
            (\<lambda>u sys1. (Exit 1, sys1))
      | Inr (PyList problems) \<Rightarrow> (Return problems, sys))"

text \<open>
  The \<open>dict\<close> literal of lines 56 to 65, the text \<open>json.dumps(entry) + "\n"\<close> of
  line 68, and the loop over \<open>enumerate(problems, start=1)\<close> that writes it to the
  file: a text with a lone surrogate makes \<open>fp.write\<close> raise, with the records before
  it written.
\<close>

definition entry :: "nat \<Rightarrow> string \<Rightarrow> json" where
  "entry idx problem =
     JObject
       [(''custom_id'', JString (''request-'' @ str_nat idx)),
        (''method'', JString ''POST''),
        (''url'', JString ''/v1/chat/completions''),
        (''body'',
         JObject
           [(''model'', JString MODEL),
            (''messages'',
             JArray [JObject [(''role'', JString ''user''), (''content'', JString problem)]]),
            (''reasoning_effort'', JString EFFORT)])]"

definition record_line :: "environ \<Rightarrow> nat \<Rightarrow> string \<Rightarrow> string" where
  "record_line env idx problem = json_dumps env (entry idx problem) @ [CHR 0x0A]"

fun write_entries :: "environ \<Rightarrow> nat \<Rightarrow> string list \<Rightarrow> string \<Rightarrow> unit outcome \<times> string" where
  "write_entries env idx [] fp = (Return (), fp)"
| "write_entries env idx (problem # problems) fp =
     (if has_surrogate (record_line env idx problem)
      then (Raise (encode_error env (record_line env idx problem)), fp)
      else write_entries env (idx + 1) problems (fp @ record_line env idx problem))"

text \<open>
  \<open>write_jsonl\<close>: the file is opened for writing, which empties it, and is closed,
  with what was written, also when the loop raises.
\<close>

definition write_jsonl ::
    "environ \<Rightarrow> string list \<Rightarrow> string \<Rightarrow> system \<Rightarrow> unit outcome \<times> system" where
  "write_jsonl env problems path sys =
     (case open_w env path of
        Some e \<Rightarrow> (Raise e, sys)
      | None \<Rightarrow>
          (case write_entries env 1 problems [] of
             (r, fp) \<Rightarrow> (r, sys\<lparr>files := (files sys)(path \<mapsto> fp)\<rparr>)))"

definition create_and_send_batch ::
    "environ \<Rightarrow> string \<Rightarrow> system \<Rightarrow> unit outcome \<times> system" where
  "create_and_send_batch env jsonl_path sys =
     (case new_client (openai env) of
        Some e \<Rightarrow> (Raise e, sys)
      | None \<Rightarrow>
          then_run
            (print_stdout env
               [''Uploading '' @ [CHR 0x27] @ jsonl_path @ [CHR 0x27] @
                '' (purpose='' @ [CHR 0x27] @ ''batch'' @ [CHR 0x27] @ '')'' @
                [CHR 0xE2, CHR 0x80, CHR 0xA6]]
               sys)
            (\<lambda>u sys1.
               case files sys1 jsonl_path of
                 None \<Rightarrow> (Raise (missing_file env jsonl_path), sys1)
               | Some content \<Rightarrow>
                   (case files_create (openai env) content of
                      Inl e \<Rightarrow> (Raise e, sys1)
                    | Inr file_id \<Rightarrow>
                        then_run
                          (print_stdout env
                             [''File uploaded '' @ [CHR 0xE2, CHR 0x80, CHR 0x93] @ '' id:'',
                              file_id]
                             sys1)
                          (\<lambda>u sys2.
                             then_run
                               (print_stdout env
                                  [''Creating batch request'' @
                                   [CHR 0xE2, CHR 0x80, CHR 0xA6]]
                                  sys2)
                               (\<lambda>u sys3.
                                  case batches_create (openai env) file_id
                                         (path_stem env jsonl_path) of
                                    Inl e \<Rightarrow> (Raise e, sys3)
                                  | Inr batch_id \<Rightarrow>
                                      then_run
                                        (print_stdout env [''Batch request submitted.''] sys3)
                                        (\<lambda>u sys4.
                                           print_stdout env [''Batch id:'', batch_id]
                                             sys4))))))"

definition main :: "environ \<Rightarrow> system \<Rightarrow> int outcome \<times> system" where
  "main env sys =
     then_run (load_problems env sys)
       (\<lambda>problems sys1.
          if problems = []
          then then_run
                 (print_stdout env
                    [''Problem list is empty '' @ [CHR 0xE2, CHR 0x80, CHR 0x93] @
                     '' nothing to do.'']
                    sys1)
                 (\<lambda>u sys2. (Return 1, sys2))
          else
            then_run
              (print_stdout env
                 [''Loaded '' @ str_nat (length problems) @ '' problems.''] sys1)
              (\<lambda>u sys2.
                 then_run (write_jsonl env problems JSONL_PATH sys2)
                   (\<lambda>u sys3.
                      then_run
                        (print_stdout env
                           [''Written JSONL file to '' @ [CHR 0x27] @ JSONL_PATH @
                            [CHR 0x27] @ ''.'']
                           sys3)
                        (\<lambda>u sys4.
                           case create_and_send_batch env JSONL_PATH sys4 of
                             (Raise e, sys5) \<Rightarrow>
                               then_run
                                 (print_stdout env
                                    [''Error while communicating with OpenAI API:'',
                                     exn_str e]
                                    sys5)
                                 (\<lambda>u sys6. (Return 1, sys6))
                           | (Exit n, sys5) \<Rightarrow> (Exit n, sys5)
                           | (Return u, sys5) \<Rightarrow> (Return 0, sys5)))))"

text \<open>
  Lines 119 and 120, \<open>sys.exit(main())\<close>: the status the process ends with. An
  exception nobody catches ends the interpreter with status 1.
\<close>

definition exit_status :: "int outcome \<Rightarrow> int" where
  "exit_status r = (case r of Return n \<Rightarrow> n | Exit n \<Rightarrow> n | Raise e \<Rightarrow> 1)"

text \<open>
  What a \<open>print\<close> does is the same whatever was printed before: the exception it
  raises, if any, and the chunks it writes. Standard output accepts a \<open>print\<close> that
  does not raise. The records of a list of problems can be encoded when none has a lone
  surrogate.
\<close>

definition print_error :: "environ \<Rightarrow> string list \<Rightarrow> exn option" where
  "print_error env args = fst (py_print (stdout_error env) '' '' [CHR 0x0A] args [])"

definition printed :: "environ \<Rightarrow> string list \<Rightarrow> string list" where
  "printed env args = snd (py_print (stdout_error env) '' '' [CHR 0x0A] args [])"

definition accepts :: "environ \<Rightarrow> string list \<Rightarrow> bool" where
  "accepts env args = (print_error env args = None)"

definition encodable :: "environ \<Rightarrow> string list \<Rightarrow> bool" where
  "encodable env ps =
     list_all (\<lambda>i. \<not> has_surrogate (record_line env (i + 1) (ps ! i))) [0..<length ps]"

text \<open>
  The state in which \<open>main\<close> calls \<open>create_and_send_batch\<close>, from the state
  \<open>sys\<close> it started in with the problems \<open>ps\<close> loaded: two lines printed and the
  JSONL file replaced.
\<close>

definition written :: "environ \<Rightarrow> string list \<Rightarrow> system \<Rightarrow> system" where
  "written env ps sys =
     sys\<lparr>files := (files sys)(JSONL_PATH \<mapsto> snd (write_entries env 1 ps [])),
         stdout :=
           stdout sys @
           [''Loaded '' @ str_nat (length ps) @ '' problems.'', [CHR 0x0A],
            ''Written JSONL file to '' @ [CHR 0x27] @ JSONL_PATH @ [CHR 0x27] @ ''.'',
            [CHR 0x0A]]\<rparr>"

subsection \<open>A concrete environment\<close>

text \<open>
  To run the model: \<open>json.dumps\<close> with \<open>ensure_ascii=False\<close> on the values above
  (separators \<open>", "\<close> and \<open>": "\<close>; in a string the quote, the backslash and the
  control characters below \<open>0x20\<close> are escaped, every other byte is kept), the stem
  of the one path the script uses, an API that accepts every call and one whose upload
  fails, a standard output that encodes UTF-8 and one that encodes ASCII only (the text
  of its exception is cut down to the reason), and a disk that holds an older JSONL file.
\<close>

definition hex_digit :: "nat \<Rightarrow> char" where
  "hex_digit d = ''0123456789abcdef'' ! d"

definition escape :: "char \<Rightarrow> string" where
  "escape c =
     (if c = CHR 0x22 then [CHR 0x5C, CHR 0x22]
      else if c = CHR 0x5C then [CHR 0x5C, CHR 0x5C]
      else if c = CHR 0x0A then [CHR 0x5C, CHR ''n'']
      else if c = CHR 0x0D then [CHR 0x5C, CHR ''r'']
      else if c = CHR 0x09 then [CHR 0x5C, CHR ''t'']
      else if c = CHR 0x08 then [CHR 0x5C, CHR ''b'']
      else if c = CHR 0x0C then [CHR 0x5C, CHR ''f'']
      else if (of_char c :: nat) < 32
      then [CHR 0x5C, CHR ''u'', CHR ''0'', CHR ''0'',
            hex_digit (of_char c div 16), hex_digit (of_char c mod 16)]
      else [c])"

definition py_dumps_str :: "string \<Rightarrow> string" where
  "py_dumps_str s = [CHR 0x22] @ concat (map escape s) @ [CHR 0x22]"

fun join :: "string \<Rightarrow> string list \<Rightarrow> string" where
  "join sep [] = []"
| "join sep [x] = x"
| "join sep (x # y # ys) = x @ sep @ join sep (y # ys)"

fun py_dumps :: "json \<Rightarrow> string" where
  "py_dumps (JString s) = py_dumps_str s"
| "py_dumps (JArray xs) = ''['' @ join '', '' (map py_dumps xs) @ '']''"
| "py_dumps (JObject kvs) =
     ''{'' @
     join '', '' (map (\<lambda>kv. py_dumps_str (fst kv) @ '': '' @ py_dumps (snd kv)) kvs) @
     ''}''"


definition api_down :: api where
  "api_down =
     \<lparr>new_client = None,
      files_create = (\<lambda>content. Inl (Exception ''Connection error.'')),
      batches_create = (\<lambda>file_id description. Inr ''batch-1'')\<rparr>"

definition utf8_stdout :: "string \<Rightarrow> exn option" where
  "utf8_stdout text = None"


definition demo_env :: "exn + pyobj \<Rightarrow> (string \<Rightarrow> exn option) \<Rightarrow> api \<Rightarrow> environ" where
  "demo_env imported out a =
     \<lparr>import_problems = imported,
      stdout_error = out,
      open_w = (\<lambda>path. None),
      encode_error = (\<lambda>text. Exception ''surrogates not allowed''),
      missing_file = (\<lambda>path. Exception ''No such file or directory''),
      json_dumps = py_dumps,
      path_stem = (\<lambda>path. ''ecodev_2000_problems''),
      openai = a\<rparr>"

definition demo_sys :: system where
  "demo_sys = \<lparr>files = [JSONL_PATH \<mapsto> ''stale''], stdout = []\<rparr>"

section \<open>The duplicate checker: proofs\<close>

subsection \<open>Printing\<close>

lemma write_all_accepted:
  "\<forall>c \<in> set cs. refuses c = None \<Longrightarrow> write_all refuses cs out = (None, out @ cs)"
  by (induction cs arbitrary: out) simp_all


lemma print_out_accepted:
  "\<forall>c. write_error env c = None \<Longrightarrow>
   print_out env args out = (Returned, out @ sep_args (Str '' '') args @ [Str [CHR 0x0A]])"
  by (simp add: print_out_def py_print_def write_all_accepted)


subsection \<open>What the scan computes\<close>

lemma set_from_hashable:
  "list_all h xs \<Longrightarrow> distinct s \<Longrightarrow>
   \<exists>s'. set_from h xs s = Inr s' \<and> set s' = set s \<union> set xs \<and> distinct s'"
proof (induction xs arbitrary: s)
  case Nil
  then show ?case by simp
next
  case (Cons x xs)
  from Cons.prems have hx: "h x" and hs: "list_all h xs" by simp_all
  let ?s = "if x \<in> set s then s else s @ [x]"
  have d: "distinct ?s" using Cons.prems(2) by simp
  from Cons.IH [OF hs d] obtain s' where
    "set_from h xs ?s = Inr s'" "set s' = set ?s \<union> set xs" "distinct s'"
    by blast
  then show ?case using hx by (auto simp: set_add_def)
qed

lemma py_set_hashable:
  "list_all h xs \<Longrightarrow> \<exists>s. py_set h xs = Inr s \<and> set s = set xs \<and> distinct s"
  using set_from_hashable [of h xs "[]"] by (simp add: py_set_def)

lemma py_set_length:
  "list_all h xs \<Longrightarrow> \<exists>s. py_set h xs = Inr s \<and> length s = card (set xs)"
  using py_set_hashable [of h xs] distinct_card by fastforce

lemma set_from_unhashable:
  "\<not> list_all h xs \<Longrightarrow> set_from h xs s = Inl TypeError"
  by (induction xs arbitrary: s) (simp_all add: set_add_def)

lemma scan_items_hashable:
  "list_all h xs \<Longrightarrow>
   \<exists>seen' dups'.
      scan_items h xs (seen, dups) = Inr (seen', dups') \<and>
      set seen' = set seen \<union> set xs \<and>
      set dups' = set dups \<union> {x \<in> set xs. x \<in> set seen} \<union> {x. 2 \<le> count_list xs x} \<and>
      (distinct seen \<longrightarrow> distinct seen') \<and> (distinct dups \<longrightarrow> distinct dups')"
proof (induction xs arbitrary: seen dups)
  case Nil
  show ?case by simp
next
  case (Cons item items)
  from Cons.prems have h: "h item" and hs: "list_all h items"
    by simp_all
  have one: "(2 \<le> Suc (count_list items item)) = (item \<in> set items)"
    using count_list_0_iff [of items item] by arith
  show ?case
  proof (cases "item \<in> set seen")
    case True
    let ?d = "if item \<in> set dups then dups else dups @ [item]"
    from Cons.IH [OF hs, of seen ?d] obtain seen' dups' where
      r: "scan_items h items (seen, ?d) = Inr (seen', dups')"
      and s: "set seen' = set seen \<union> set items"
      and d: "set dups' = set ?d \<union> {x \<in> set items. x \<in> set seen} \<union>
                {x. 2 \<le> count_list items x}"
      and ds: "distinct seen \<longrightarrow> distinct seen'"
      and dd: "distinct ?d \<longrightarrow> distinct dups'"
      by blast
    have "scan_items h (item # items) (seen, dups) = Inr (seen', dups')"
      using h True r by (simp add: set_contains_def set_add_def)
    moreover have "set seen' = set seen \<union> set (item # items)"
      using s True by auto
    moreover have "set dups' =
        set dups \<union> {x \<in> set (item # items). x \<in> set seen} \<union>
        {x. 2 \<le> count_list (item # items) x}"
      using d True one by auto
    moreover have "distinct dups \<longrightarrow> distinct dups'"
      using dd by simp
    ultimately show ?thesis using ds by blast
  next
    case False
    let ?s = "seen @ [item]"
    from Cons.IH [OF hs, of ?s dups] obtain seen' dups' where
      r: "scan_items h items (?s, dups) = Inr (seen', dups')"
      and s: "set seen' = set ?s \<union> set items"
      and d: "set dups' = set dups \<union> {x \<in> set items. x \<in> set ?s} \<union>
                {x. 2 \<le> count_list items x}"
      and ds: "distinct ?s \<longrightarrow> distinct seen'"
      and dd: "distinct dups \<longrightarrow> distinct dups'"
      by blast
    have "scan_items h (item # items) (seen, dups) = Inr (seen', dups')"
      using h False r by (simp add: set_contains_def set_add_def)
    moreover have "set seen' = set seen \<union> set (item # items)"
      using s by auto
    moreover have "set dups' =
        set dups \<union> {x \<in> set (item # items). x \<in> set seen} \<union>
        {x. 2 \<le> count_list (item # items) x}"
      using d False one by auto
    moreover have "distinct seen \<longrightarrow> distinct seen'"
      using ds False by simp
    ultimately show ?thesis using dd by blast
  qed
qed

lemma scan_items_start:
  "list_all h xs \<Longrightarrow>
   \<exists>seen dups.
      scan_items h xs ([], []) = Inr (seen, dups) \<and> set seen = set xs \<and>
      set dups = {x. 2 \<le> count_list xs x} \<and> distinct dups"
  using scan_items_hashable [of h xs "[]" "[]"] by auto

lemma distinct_count_list: "distinct xs \<longleftrightarrow> (\<forall>x. count_list xs x \<le> 1)"
proof (induction xs)
  case Nil
  show ?case by simp
next
  case (Cons a xs)
  show ?case
  proof
    assume d: "distinct (a # xs)"
    then have "\<forall>x. count_list xs x \<le> 1" and "count_list xs a = 0"
      using Cons.IH by simp_all
    then show "\<forall>x. count_list (a # xs) x \<le> 1" by auto
  next
    assume c: "\<forall>x. count_list (a # xs) x \<le> 1"
    have "count_list xs a = 0" using c [rule_format, of a] by simp
    moreover have "\<forall>x. count_list xs x \<le> 1"
    proof
      fix x
      show "count_list xs x \<le> 1" using c [rule_format, of x] by (simp split: if_splits)
    qed
    ultimately show "distinct (a # xs)"
      using Cons.IH by (simp add: count_list_0_iff)
  qed
qed

lemma length_card_iff: "length xs = card (set xs) \<longleftrightarrow> {x. 2 \<le> count_list xs x} = {}"
proof -
  have "length xs = card (set xs) \<longleftrightarrow> distinct xs"
    using card_distinct [of xs] distinct_card [of xs] by auto
  also have "\<dots> \<longleftrightarrow> (\<forall>x. count_list xs x \<le> 1)"
    by (rule distinct_count_list)
  also have "\<dots> \<longleftrightarrow> {x. 2 \<le> count_list xs x} = {}"
  proof -
    have "\<And>n::nat. (\<not> 2 \<le> n) = (n \<le> 1)" by arith
    then show ?thesis by simp
  qed
  finally show ?thesis .
qed


lemma py_list_lists: "distinct s \<Longrightarrow> distinct (py_list env s) \<and> set (py_list env s) = set s"
  by (simp add: py_list_def Let_def)

text \<open>
  A run on hashable items and a standard output that accepts every write: what is
  appended, and that the call returns.
\<close>

lemma check_list_uniqueness_accepted:
  assumes h: "list_all (hashable env) items" and w: "\<forall>c. write_error env c = None"
  shows "\<exists>l. distinct l \<and> set l = {x. 2 \<le> count_list items x} \<and>
     check_list_uniqueness env items out =
       (Returned,
        out @ (if distinct items
               then [Str ''All items in the list are unique!'', Str [CHR 0x0A]]
               else [Str ''There are duplicate items in the list.'', Str [CHR 0x0A],
                     Str ''Duplicate items found:'', Str '' '', Items l, Str [CHR 0x0A]]))"
proof -
  from py_set_hashable [OF h] obtain s where
    s: "py_set (hashable env) items = Inr s" "set s = set items" "distinct s"
    by blast
  have ls: "length items = length s \<longleftrightarrow> distinct items"
    using s card_distinct [of items] distinct_card [of items] distinct_card [of s]
    by auto
  from scan_items_start [OF h] obtain seen dups where
    sc: "scan_items (hashable env) items ([], []) = Inr (seen, dups)"
    and d: "set dups = {x. 2 \<le> count_list items x}" "distinct dups"
    by blast
  let ?l = "py_list env dups"
  have "distinct ?l \<and> set ?l = {x. 2 \<le> count_list items x}"
    using py_list_lists [OF d(2), of env] d(1) by simp
  moreover have "check_list_uniqueness env items out =
       (Returned,
        out @ (if distinct items
               then [Str ''All items in the list are unique!'', Str [CHR 0x0A]]
               else [Str ''There are duplicate items in the list.'', Str [CHR 0x0A],
                     Str ''Duplicate items found:'', Str '' '', Items ?l, Str [CHR 0x0A]]))"
    by (simp add: check_list_uniqueness_def s(1) ls sc print_out_accepted [OF w])
  ultimately show ?thesis by blast
qed

lemma report_of_accepted:
  assumes h: "list_all (hashable env) items" and w: "\<forall>c. write_error env c = None"
  shows "report_of (check_list_uniqueness env items []) =
     Inr \<lparr>unique = ({x. 2 \<le> count_list items x} = {}),
          duplicates = {x. 2 \<le> count_list items x}\<rparr>"
proof -
  from check_list_uniqueness_accepted [OF h w, of "[]"] obtain l where
    l: "set l = {x. 2 \<le> count_list items x}"
    and r: "check_list_uniqueness env items [] =
       (Returned,
        [] @ (if distinct items
               then [Str ''All items in the list are unique!'', Str [CHR 0x0A]]
               else [Str ''There are duplicate items in the list.'', Str [CHR 0x0A],
                     Str ''Duplicate items found:'', Str '' '', Items l, Str [CHR 0x0A]]))"
    by blast
  have e: "distinct items \<longleftrightarrow> {x. 2 \<le> count_list items x} = {}"
    using length_card_iff [of items] card_distinct [of items] distinct_card [of items]
    by auto
  show ?thesis
  proof (cases "distinct items")
    case True
    then show ?thesis using r e by (simp add: report_of_def)
  next
    case False
    then show ?thesis using r e l by (simp add: report_of_def)
  qed
qed

lemma check_hashable:
  "list_all h xs \<Longrightarrow>
   check h xs =
     Inr \<lparr>unique = ({x. 2 \<le> count_list xs x} = {}), duplicates = {x. 2 \<le> count_list xs x}\<rparr>"
  unfolding check_def
  by (rule report_of_accepted) (simp_all add: plain_def)

text \<open>
  The report does not depend on the iteration order of the runtime: every run on a
  standard output that accepts the writes shows the report of \<open>check\<close>.
\<close>

lemma report_of_run:
  "list_all (hashable env) items \<Longrightarrow> \<forall>c. write_error env c = None \<Longrightarrow>
   report_of (check_list_uniqueness env items []) = check (hashable env) items"
  by (simp add: report_of_accepted check_hashable)

text \<open>The error branches of the model are live.\<close>

lemma check_list_uniqueness_unhashable:
  "\<not> list_all (hashable env) items \<Longrightarrow>
   check_list_uniqueness env items out = (Raised TypeError, out)"
  by (simp add: check_list_uniqueness_def py_set_def set_from_unhashable)


lemma dup_aba: "{x. 2 \<le> count_list [''a'', ''b'', ''a''] x} = {''a''}"
  by auto

lemma check_aba:
  "check str_hashable [''a'', ''b'', ''a''] = Inr \<lparr>unique = False, duplicates = {''a''}\<rparr>"
  using check_hashable [of str_hashable "[''a'', ''b'', ''a'']"] dup_aba by simp



subsection \<open>The claims about the duplicate checker\<close>

text \<open>
  C1. For every sequence \<open>S\<close> of hashable items the call reports, and the duplicate set
  it reports is exactly the set of the values that occur at least twice in \<open>S\<close>; the
  verdict is "unique" if and only if that set is empty.
\<close>

theorem check_duplicate_set:
  assumes "list_all h S"
  shows "\<exists>r. check h S = Inr r \<and>
             duplicates r = {x. 2 \<le> count_list S x} \<and>
             (unique r \<longleftrightarrow> duplicates r = {})"
  using check_hashable [OF assms] by simp

theorem check_duplicate_set_witness:
  "list_all str_hashable [''a'', ''b'', ''a''] \<and>
   (\<exists>r. check str_hashable [''a'', ''b'', ''a''] = Inr r \<and>
        duplicates r = {''a''} \<and> \<not> unique r)"
  using check_duplicate_set [of str_hashable "[''a'', ''b'', ''a'']"] dup_aba by auto

text \<open>
  C2. The fast test and the detailed scan agree: the length of \<open>S\<close> is the number of
  its distinct values (which is the length of \<open>set(S)\<close>) if and only if the scan ends
  with an empty \<open>duplicates\<close> set. So the two-step strategy of the source reports what
  always running the scan (\<open>check_detailed\<close>) reports.
\<close>

theorem two_step_equals_detailed:
  assumes "list_all h S"
  shows "(length S = card (set S) \<longleftrightarrow>
            (\<exists>seen. scan_items h S ([], []) = Inr (seen, []))) \<and>
         (\<exists>s. py_set h S = Inr s \<and> length s = card (set S)) \<and>
         check h S = check_detailed h S"
proof -
  from scan_items_start [OF assms] obtain seen dups where
    sc: "scan_items h S ([], []) = Inr (seen, dups)"
    and d: "set dups = {x. 2 \<le> count_list S x}"
    by blast
  have e: "dups = [] \<longleftrightarrow> {x. 2 \<le> count_list S x} = {}"
    using d by (metis set_empty)
  have "length S = card (set S) \<longleftrightarrow> (\<exists>seen. scan_items h S ([], []) = Inr (seen, []))"
    using sc e by (simp add: length_card_iff)
  moreover have "\<exists>s. py_set h S = Inr s \<and> length s = card (set S)"
    using assms by (rule py_set_length)
  moreover have "check h S = check_detailed h S"
    using sc e d by (simp add: check_hashable [OF assms] check_detailed_def)
  ultimately show ?thesis by blast
qed

theorem two_step_equals_detailed_witness:
  "list_all str_hashable [''a'', ''b'', ''a''] \<and>
   length [''a'', ''b'', ''a''] \<noteq> card (set [''a'', ''b'', ''a'']) \<and>
   check_detailed str_hashable [''a'', ''b'', ''a''] =
     Inr \<lparr>unique = False, duplicates = {''a''}\<rparr>"
proof -
  have l: "length [''a'', ''b'', ''a''] \<noteq> card (set [''a'', ''b'', ''a''])"
    by code_simp
  show ?thesis
    using two_step_equals_detailed [of str_hashable "[''a'', ''b'', ''a'']"] check_aba l
    by simp
qed

text \<open>
  C3. Order independence: a permutation \<open>S'\<close> of \<open>S\<close> (the same multiset of items)
  gets the same report, verdict and duplicate set.
\<close>

theorem check_permutation:
  assumes "list_all h S" and "mset S' = mset S"
  shows "\<exists>r. check h S = Inr r \<and> check h S' = Inr r"
proof -
  have "set S' = set S" using assms(2) by (rule mset_eq_setD)
  with assms(1) have h': "list_all h S'" by (simp add: list_all_iff)
  have "\<And>x. count_list S' x = count_list S x"
    using assms(2) by (metis count_mset)
  then show ?thesis
    by (simp add: check_hashable [OF assms(1)] check_hashable [OF h'])
qed

theorem check_permutation_witness:
  "list_all str_hashable [''a'', ''b'', ''a''] \<and>
   mset [''b'', ''a'', ''a''] = mset [''a'', ''b'', ''a''] \<and>
   (\<exists>r. check str_hashable [''a'', ''b'', ''a''] = Inr r \<and>
        check str_hashable [''b'', ''a'', ''a''] = Inr r)"
proof -
  have m: "mset [''b'', ''a'', ''a''] = mset [''a'', ''b'', ''a'']" by simp
  have h: "list_all str_hashable [''a'', ''b'', ''a'']" by simp
  show ?thesis using check_permutation [OF h m] h m by blast
qed



text \<open>
  C5. The empty sequence is reported unique with no duplicates, and so is every
  sequence of hashable items without a repeated element.
\<close>

theorem check_unique:
  "check h [] = Inr \<lparr>unique = True, duplicates = {}\<rparr> \<and>
   (list_all h S \<and> distinct S \<longrightarrow>
      check h S = Inr \<lparr>unique = True, duplicates = {}\<rparr>)"
proof (intro conjI impI)
  show "check h [] = Inr \<lparr>unique = True, duplicates = {}\<rparr>"
    using check_hashable [of h "[]"] by simp
next
  assume a: "list_all h S \<and> distinct S"
  then have "{x. 2 \<le> count_list S x} = {}"
    using length_card_iff [of S] distinct_card [of S] by simp
  with a show "check h S = Inr \<lparr>unique = True, duplicates = {}\<rparr>"
    by (simp add: check_hashable)
qed

theorem check_unique_witness:
  "list_all str_hashable [''a'', ''b'', ''c''] \<and> distinct [''a'', ''b'', ''c''] \<and>
   check str_hashable [''a'', ''b'', ''c''] = Inr \<lparr>unique = True, duplicates = {}\<rparr>"
  using check_unique [of str_hashable "[''a'', ''b'', ''c'']"] by simp







section \<open>The batch script: proofs\<close>

subsection \<open>Printing and sequencing\<close>

lemma write_all_append:
  "write_all refuses cs out =
     (fst (write_all refuses cs []), out @ snd (write_all refuses cs []))"
proof (induction cs arbitrary: out)
  case Nil
  show ?case by simp
next
  case (Cons c cs)
  show ?case
    using Cons.IH [of "out @ [c]"] Cons.IH [of "[c]"]
    by (simp split: option.splits)
qed

lemma write_all_result:
  "fst (write_all refuses cs out) = None \<longleftrightarrow> list_all (\<lambda>c. refuses c = None) cs"
  by (induction cs arbitrary: out) (auto split: option.splits)

lemma print_stdout_eq:
  "print_stdout env args sys =
     (case print_error env args of None \<Rightarrow> Return () | Some e \<Rightarrow> Raise e,
      sys\<lparr>stdout := stdout sys @ printed env args\<rparr>)"
  using write_all_append [of "stdout_error env" "sep_args '' '' args @ [[CHR 0x0A]]" "stdout sys"]
  by (simp add: print_stdout_def print_error_def printed_def py_print_def
      split: option.splits prod.splits)

lemma accepts_iff:
  "accepts env args \<longleftrightarrow>
     list_all (\<lambda>c. stdout_error env c = None) (sep_args '' '' args @ [[CHR 0x0A]])"
  by (simp add: accepts_def print_error_def py_print_def write_all_result)

lemma printed_accepted:
  "accepts env args \<Longrightarrow> printed env args = sep_args '' '' args @ [[CHR 0x0A]]"
  using write_all_accepted [of "sep_args '' '' args @ [[CHR 0x0A]]" "stdout_error env" "[]"]
  by (simp add: accepts_iff printed_def py_print_def list_all_iff)

lemma print_stdout_accepted:
  "accepts env args \<Longrightarrow>
   print_stdout env args sys =
     (Return (), sys\<lparr>stdout := stdout sys @ sep_args '' '' args @ [[CHR 0x0A]]\<rparr>)"
  by (simp add: print_stdout_eq printed_accepted) (simp add: accepts_def)

lemma then_run_simps [simp]:
  "then_run (Return x, s) f = f x s"
  "then_run (Exit n, s) f = (Exit n, s)"
  "then_run (Raise e, s) f = (Raise e, s)"
  by (simp_all add: then_run_def)

subsection \<open>The file written\<close>

lemma write_entries_encodable:
  "\<forall>i < length ps. \<not> has_surrogate (record_line env (idx + i) (ps ! i)) \<Longrightarrow>
   write_entries env idx ps fp =
     (Return (), fp @ concat (map (\<lambda>i. record_line env (idx + i) (ps ! i)) [0..<length ps]))"
proof (induction ps arbitrary: idx fp)
  case Nil
  show ?case by simp
next
  case (Cons p ps)
  have a: "\<not> has_surrogate (record_line env idx p)"
    using Cons.prems [rule_format, of 0] by simp
  have b: "\<forall>i < length ps. \<not> has_surrogate (record_line env (Suc idx + i) (ps ! i))"
  proof (intro allI impI)
    fix i assume "i < length ps"
    then have "Suc i < length (p # ps)" by simp
    from Cons.prems [rule_format, OF this]
    show "\<not> has_surrogate (record_line env (Suc idx + i) (ps ! i))" by simp
  qed
  have "write_entries env (Suc idx) ps (fp @ record_line env idx p) =
     (Return (),
      (fp @ record_line env idx p) @
      concat (map (\<lambda>i. record_line env (Suc idx + i) (ps ! i)) [0..<length ps]))"
    using b by (rule Cons.IH)
  then show ?case
    using a by (simp add: map_upt_Suc del: upt_Suc)
qed


lemma encodable_iff:
  "encodable env ps \<longleftrightarrow>
     (\<forall>i < length ps. \<not> has_surrogate (record_line env (1 + i) (ps ! i)))"
  by (auto simp: encodable_def list_all_iff)

lemma write_entries_returns:
  "fst (write_entries env idx ps fp) = Return () \<longleftrightarrow>
     (\<forall>i < length ps. \<not> has_surrogate (record_line env (idx + i) (ps ! i)))"
proof
  assume "\<forall>i < length ps. \<not> has_surrogate (record_line env (idx + i) (ps ! i))"
  then show "fst (write_entries env idx ps fp) = Return ()"
    by (simp add: write_entries_encodable)
next
  assume r: "fst (write_entries env idx ps fp) = Return ()"
  show "\<forall>i < length ps. \<not> has_surrogate (record_line env (idx + i) (ps ! i))"
    using r
  proof (induction ps arbitrary: idx fp)
    case Nil
    show ?case by simp
  next
    case (Cons p ps)
    from Cons.prems have a: "\<not> has_surrogate (record_line env idx p)"
      by (auto split: if_splits)
    with Cons.prems have "fst (write_entries env (Suc idx) ps (fp @ record_line env idx p)) = Return ()"
      by simp
    from Cons.IH [OF this]
    have b: "\<forall>i < length ps. \<not> has_surrogate (record_line env (Suc idx + i) (ps ! i))" .
    show ?case
    proof (intro allI impI)
      fix i assume i: "i < length (p # ps)"
      show "\<not> has_surrogate (record_line env (idx + i) ((p # ps) ! i))"
      proof (cases i)
        case 0
        with a show ?thesis by simp
      next
        case (Suc j)
        with i b show ?thesis by simp
      qed
    qed
  qed
qed

lemma write_entries_no_exit: "fst (write_entries env idx ps fp) \<noteq> Exit n"
  by (induction ps arbitrary: idx fp) simp_all

subsection \<open>The runs of main\<close>

lemma encodable_returns: "encodable env ps \<longleftrightarrow> fst (write_entries env 1 ps []) = Return ()"
  by (simp add: encodable_iff write_entries_returns)

lemma write_jsonl_eq:
  "write_jsonl env ps path sys =
     (case open_w env path of
        Some e \<Rightarrow> (Raise e, sys)
      | None \<Rightarrow>
          (fst (write_entries env 1 ps []),
           sys\<lparr>files := (files sys)(path \<mapsto> snd (write_entries env 1 ps []))\<rparr>))"
  by (simp add: write_jsonl_def split: option.splits prod.splits)

lemma create_and_send_batch_files:
  "files (snd (create_and_send_batch env path sys)) = files sys"
  by (simp add: create_and_send_batch_def print_stdout_eq
      split: option.splits sum.splits)

lemma create_and_send_batch_no_exit:
  "fst (create_and_send_batch env path sys) \<noteq> Exit n"
  by (simp add: create_and_send_batch_def print_stdout_eq
      split: option.splits sum.splits)


lemma files_written:
  "files (written env ps sys) =
     (files sys)(JSONL_PATH \<mapsto> snd (write_entries env 1 ps []))"
  by (simp add: written_def)

lemma main_proceeds:
  assumes "import_problems env = Inr (PyList ps)" and "ps \<noteq> []"
    and "accepts env [''Loaded '' @ str_nat (length ps) @ '' problems.'']"
    and "open_w env JSONL_PATH = None" and "encodable env ps"
    and "accepts env
           [''Written JSONL file to '' @ [CHR 0x27] @ JSONL_PATH @ [CHR 0x27] @ ''.'']"
  shows "main env sys =
     (case create_and_send_batch env JSONL_PATH (written env ps sys) of
        (Raise e, sys5) \<Rightarrow>
          then_run
            (print_stdout env [''Error while communicating with OpenAI API:'', exn_str e]
               sys5)
            (\<lambda>u sys6. (Return 1, sys6))
      | (Exit n, sys5) \<Rightarrow> (Exit n, sys5)
      | (Return u, sys5) \<Rightarrow> (Return 0, sys5))"
proof -
  have w: "fst (write_entries env 1 ps []) = Return ()"
    using assms(5) by (simp add: encodable_returns)
  note p1 = assms(3) [unfolded accepts_def] printed_accepted [OF assms(3)]
  note p2 = assms(6) [unfolded accepts_def] printed_accepted [OF assms(6)]
  show ?thesis
    using assms(1,2,4) w p1 p2
    by (simp add: main_def load_problems_def write_jsonl_eq print_stdout_eq written_def)
qed

lemma main_files:
  assumes "import_problems env = Inr (PyList ps)" and "ps \<noteq> []"
    and "accepts env [''Loaded '' @ str_nat (length ps) @ '' problems.'']"
    and "open_w env JSONL_PATH = None"
  shows "files (snd (main env sys)) =
           (files sys)(JSONL_PATH \<mapsto> snd (write_entries env 1 ps []))"
proof -
  note p1 = assms(3) [unfolded accepts_def] printed_accepted [OF assms(3)]
  have c: "\<And>s. files (snd (case create_and_send_batch env JSONL_PATH s of
                 (Raise e, sys5) \<Rightarrow>
                   then_run
                     (print_stdout env
                        [''Error while communicating with OpenAI API:'', exn_str e] sys5)
                     (\<lambda>u sys6. (Return (1::int), sys6))
               | (Exit n, sys5) \<Rightarrow> (Exit n, sys5)
               | (Return u, sys5) \<Rightarrow> (Return 0, sys5))) = files s"
  proof -
    fix s
    obtain r s' where e: "create_and_send_batch env JSONL_PATH s = (r, s')"
      by (cases "create_and_send_batch env JSONL_PATH s")
    have "files s' = files s"
      using create_and_send_batch_files [of env JSONL_PATH s] e by simp
    then show "files (snd (case create_and_send_batch env JSONL_PATH s of
                 (Raise e, sys5) \<Rightarrow>
                   then_run
                     (print_stdout env
                        [''Error while communicating with OpenAI API:'', exn_str e] sys5)
                     (\<lambda>u sys6. (Return (1::int), sys6))
               | (Exit n, sys5) \<Rightarrow> (Exit n, sys5)
               | (Return u, sys5) \<Rightarrow> (Return 0, sys5))) = files s"
      by (cases r) (simp_all add: e print_stdout_eq split: option.splits)
  qed
  show ?thesis
    using assms(1,2,4) p1
    by (cases "fst (write_entries env 1 ps [])")
       (simp_all add: main_def load_problems_def write_jsonl_eq print_stdout_eq c
          split: option.splits)
qed

lemma fst_print_then:
  "fst (then_run (print_stdout env args s) (\<lambda>u s'. (r, s'))) =
     (case print_error env args of None \<Rightarrow> r | Some e \<Rightarrow> Raise e)"
  by (simp add: print_stdout_eq split: option.splits)

lemma main_import_error:
  "import_problems env = Inl (ImportError m) \<Longrightarrow>
   main env sys =
     then_run
       (print_stdout env [''Could not import `data.problem_list.problems`:'', m] sys)
       (\<lambda>u sys1. (Exit 1, sys1))"
  by (simp add: main_def load_problems_def print_stdout_eq split: option.splits)

lemma main_import_raises:
  "import_problems env = Inl (Exception m) \<Longrightarrow> main env sys = (Raise (Exception m), sys)"
  by (simp add: main_def load_problems_def)

lemma main_not_a_list:
  "import_problems env = Inr NotAList \<Longrightarrow>
   main env sys =
     then_run
       (print_stdout env [''`data.problem_list.problems` should be a list of strings.'']
          sys)
       (\<lambda>u sys1. (Exit 1, sys1))"
  by (simp add: main_def load_problems_def print_stdout_eq split: option.splits)

lemma main_empty:
  "import_problems env = Inr (PyList []) \<Longrightarrow>
   main env sys =
     then_run
       (print_stdout env
          [''Problem list is empty '' @ [CHR 0xE2, CHR 0x80, CHR 0x93] @
           '' nothing to do.'']
          sys)
       (\<lambda>u sys2. (Return 1, sys2))"
  by (simp add: main_def load_problems_def)

lemma main_not_loaded:
  "import_problems env = Inr (PyList ps) \<Longrightarrow> ps \<noteq> [] \<Longrightarrow>
   \<not> accepts env [''Loaded '' @ str_nat (length ps) @ '' problems.''] \<Longrightarrow>
   \<exists>e. fst (main env sys) = Raise e"
  by (auto simp: main_def load_problems_def print_stdout_eq accepts_def)

lemma main_open_fails:
  "import_problems env = Inr (PyList ps) \<Longrightarrow> ps \<noteq> [] \<Longrightarrow>
   accepts env [''Loaded '' @ str_nat (length ps) @ '' problems.''] \<Longrightarrow>
   open_w env JSONL_PATH = Some e \<Longrightarrow>
   fst (main env sys) = Raise e"
  by (auto simp: main_def load_problems_def print_stdout_eq accepts_def write_jsonl_eq)

lemma main_not_encodable:
  assumes "import_problems env = Inr (PyList ps)" and "ps \<noteq> []"
    and "accepts env [''Loaded '' @ str_nat (length ps) @ '' problems.'']"
    and "open_w env JSONL_PATH = None" and "\<not> encodable env ps"
  shows "\<exists>e. fst (main env sys) = Raise e"
proof -
  have "fst (write_entries env 1 ps []) \<noteq> Return ()"
    using assms(5) by (simp add: encodable_returns)
  then obtain e where "fst (write_entries env 1 ps []) = Raise e"
    using write_entries_no_exit [of env 1 ps "[]"]
    by (cases "fst (write_entries env 1 ps [])") auto
  then show ?thesis
    using assms(1-4)
    by (auto simp: main_def load_problems_def print_stdout_eq accepts_def write_jsonl_eq)
qed

lemma main_not_written:
  assumes "import_problems env = Inr (PyList ps)" and "ps \<noteq> []"
    and "accepts env [''Loaded '' @ str_nat (length ps) @ '' problems.'']"
    and "open_w env JSONL_PATH = None" and "encodable env ps"
    and "\<not> accepts env
           [''Written JSONL file to '' @ [CHR 0x27] @ JSONL_PATH @ [CHR 0x27] @ ''.'']"
  shows "\<exists>e. fst (main env sys) = Raise e"
proof -
  have "fst (write_entries env 1 ps []) = Return ()"
    using assms(5) by (simp add: encodable_returns)
  then show ?thesis
    using assms(1-4,6)
    by (auto simp: main_def load_problems_def print_stdout_eq accepts_def write_jsonl_eq)
qed

lemma main_after_upload:
  assumes "import_problems env = Inr (PyList ps)" and "ps \<noteq> []"
    and "accepts env [''Loaded '' @ str_nat (length ps) @ '' problems.'']"
    and "open_w env JSONL_PATH = None" and "encodable env ps"
    and "accepts env
           [''Written JSONL file to '' @ [CHR 0x27] @ JSONL_PATH @ [CHR 0x27] @ ''.'']"
  shows "fst (main env sys) =
     (case fst (create_and_send_batch env JSONL_PATH (written env ps sys)) of
        Raise e \<Rightarrow>
          (case print_error env [''Error while communicating with OpenAI API:'', exn_str e] of
             None \<Rightarrow> Return 1
           | Some e' \<Rightarrow> Raise e')
      | Exit n \<Rightarrow> Exit n
      | Return u \<Rightarrow> Return 0)"
proof -
  obtain r s' where e: "create_and_send_batch env JSONL_PATH (written env ps sys) = (r, s')"
    by (cases "create_and_send_batch env JSONL_PATH (written env ps sys)")
  show ?thesis
    by (cases r)
       (simp_all add: main_proceeds [OF assms] e print_stdout_eq split: option.splits)
qed


lemma main_status:
  "(exit_status (fst (main env sys)) = 0 \<longleftrightarrow> fst (main env sys) = Return 0) \<and>
   (exit_status (fst (main env sys)) = 0 \<or> exit_status (fst (main env sys)) = 1)"
proof -
  have "fst (main env sys) \<in> {Return 0, Return 1, Exit 1} \<union> range Raise"
  proof (cases "import_problems env")
    case (Inl e)
    then show ?thesis
      by (cases e) (simp_all add: main_import_error main_import_raises fst_print_then
          split: option.splits)
  next
    case (Inr obj)
    show ?thesis
    proof (cases obj)
      case NotAList
      with Inr show ?thesis
        by (simp add: main_not_a_list fst_print_then split: option.splits)
    next
      case (PyList ps)
      with Inr have i: "import_problems env = Inr (PyList ps)" by simp
      show ?thesis
      proof (cases "ps = []")
        case True
        with i show ?thesis
          by (simp add: main_empty fst_print_then split: option.splits)
      next
        case ne: False
        show ?thesis
        proof (cases "accepts env [''Loaded '' @ str_nat (length ps) @ '' problems.'']")
          case False
          from main_not_loaded [OF i ne False, of sys] show ?thesis by auto
        next
          case a1: True
          show ?thesis
          proof (cases "open_w env JSONL_PATH")
            case (Some e)
            from main_open_fails [OF i ne a1 Some, of sys] show ?thesis by auto
          next
            case o: None
            show ?thesis
            proof (cases "encodable env ps")
              case False
              from main_not_encodable [OF i ne a1 o False, of sys] show ?thesis by auto
            next
              case en: True
              show ?thesis
              proof (cases "accepts env
                  [''Written JSONL file to '' @ [CHR 0x27] @ JSONL_PATH @ [CHR 0x27] @ ''.'']")
                case False
                from main_not_written [OF i ne a1 o en False, of sys] show ?thesis by auto
              next
                case a2: True
                show ?thesis
                  using create_and_send_batch_no_exit
                          [of env JSONL_PATH "written env ps sys"]
                  by (cases "fst (create_and_send_batch env JSONL_PATH (written env ps sys))")
                     (auto simp: main_after_upload [OF i ne a1 o en a2]
                        split: option.splits)
              qed
            qed
          qed
        qed
      qed
    qed
  qed
  then show ?thesis
    by (auto simp: exit_status_def)
qed

lemma api_raises:
  assumes "new_client (openai env) = Some e \<or>
           new_client (openai env) = None \<and>
           accepts env
             [''Uploading '' @ [CHR 0x27] @ path @ [CHR 0x27] @
              '' (purpose='' @ [CHR 0x27] @ ''batch'' @ [CHR 0x27] @ '')'' @
              [CHR 0xE2, CHR 0x80, CHR 0xA6]] \<and>
           (files_create (openai env) content = Inl e \<or>
            (\<exists>file_id.
                files_create (openai env) content = Inr file_id \<and>
                accepts env
                  [''File uploaded '' @ [CHR 0xE2, CHR 0x80, CHR 0x93] @ '' id:'',
                   file_id] \<and>
                accepts env [''Creating batch request'' @ [CHR 0xE2, CHR 0x80, CHR 0xA6]] \<and>
                batches_create (openai env) file_id (path_stem env path) = Inl e))"
    and "files sys path = Some content"
  shows "fst (create_and_send_batch env path sys) = Raise e"
  using assms
  by (auto simp: create_and_send_batch_def print_stdout_eq accepts_def)

lemma main_logs_error:
  assumes "import_problems env = Inr (PyList ps)" and "ps \<noteq> []"
    and "accepts env [''Loaded '' @ str_nat (length ps) @ '' problems.'']"
    and "open_w env JSONL_PATH = None" and "encodable env ps"
    and "accepts env
           [''Written JSONL file to '' @ [CHR 0x27] @ JSONL_PATH @ [CHR 0x27] @ ''.'']"
    and r: "fst (create_and_send_batch env JSONL_PATH (written env ps sys)) = Raise e"
    and a: "accepts env [''Error while communicating with OpenAI API:'', exn_str e]"
  shows "fst (main env sys) = Return 1 \<and>
         (\<exists>pre. stdout (snd (main env sys)) =
            pre @ [''Error while communicating with OpenAI API:'', '' '', exn_str e,
                   [CHR 0x0A]])"
proof -
  obtain s where c: "create_and_send_batch env JSONL_PATH (written env ps sys) = (Raise e, s)"
    using r by (cases "create_and_send_batch env JSONL_PATH (written env ps sys)") simp
  show ?thesis
    by (simp add: main_proceeds [OF assms(1-6)] c print_stdout_accepted [OF a])
qed

subsection \<open>Decimal numerals and the serialiser\<close>








lemma str_nat_1: "str_nat (Suc 0) = ''1''"
  by (simp add: str_nat.simps)

text \<open>
  The model of \<open>json.dumps\<close> never emits a line feed (it escapes the ones inside
  strings), so with it the file has one line feed, and one line, for each record
  written.
\<close>

lemma hex_digit_no_newline: "d < 16 \<Longrightarrow> hex_digit d \<noteq> CHR 0x0A"
proof -
  assume "d < 16"
  then have "d < length ''0123456789abcdef''" by simp
  then have "''0123456789abcdef'' ! d \<in> set ''0123456789abcdef''" by (rule nth_mem)
  then show ?thesis unfolding hex_digit_def by auto
qed

lemma escape_no_newline: "CHR 0x0A \<notin> set (escape c)"
proof -
  have lo: "hex_digit ((of_char c :: nat) mod 16) \<noteq> CHR 0x0A"
    by (rule hex_digit_no_newline) simp
  have hi: "(of_char c :: nat) < 32 \<Longrightarrow> hex_digit ((of_char c :: nat) div 16) \<noteq> CHR 0x0A"
    by (rule hex_digit_no_newline) simp
  show ?thesis
    using lo hi by (auto simp: escape_def)
qed

lemma py_dumps_str_no_newline: "CHR 0x0A \<notin> set (py_dumps_str s)"
  using escape_no_newline by (auto simp: py_dumps_str_def)

lemma join_no_newline:
  "\<forall>x \<in> set xs. CHR 0x0A \<notin> set x \<Longrightarrow> CHR 0x0A \<notin> set (join '', '' xs)"
  by (induction "'', ''" xs rule: join.induct) auto

lemma py_dumps_no_newline: "CHR 0x0A \<notin> set (py_dumps j)"
proof (induction j)
  case (JString s)
  show ?case by (simp add: py_dumps_str_no_newline)
next
  case (JArray xs)
  then have "CHR 0x0A \<notin> set (join '', '' (map py_dumps xs))"
    by (intro join_no_newline) auto
  then show ?case by simp
next
  case (JObject kvs)
  have "\<forall>x \<in> set (map (\<lambda>kv. py_dumps_str (fst kv) @ '': '' @ py_dumps (snd kv)) kvs).
          CHR 0x0A \<notin> set x"
  proof
    fix x
    assume "x \<in> set (map (\<lambda>kv. py_dumps_str (fst kv) @ '': '' @ py_dumps (snd kv)) kvs)"
    then obtain kv where kv: "kv \<in> set kvs"
      and x: "x = py_dumps_str (fst kv) @ '': '' @ py_dumps (snd kv)"
      by auto
    have "CHR 0x0A \<notin> set (py_dumps (snd kv))"
      using JObject kv by (cases kv) auto
    then show "CHR 0x0A \<notin> set x" using x py_dumps_str_no_newline by simp
  qed
  then have "CHR 0x0A \<notin>
      set (join '', '' (map (\<lambda>kv. py_dumps_str (fst kv) @ '': '' @ py_dumps (snd kv)) kvs))"
    by (rule join_no_newline)
  then show ?case by simp
qed

lemma write_entries_newlines:
  "json_dumps env = py_dumps \<Longrightarrow> fst (write_entries env idx ps fp) = Return () \<Longrightarrow>
   count_list (snd (write_entries env idx ps fp)) (CHR 0x0A) =
     count_list fp (CHR 0x0A) + length ps"
proof (induction ps arbitrary: idx fp)
  case Nil
  show ?case by simp
next
  case (Cons p ps)
  have "count_list (py_dumps (entry idx p)) (CHR 0x0A) = 0"
    using py_dumps_no_newline by (rule count_notin)
  then have c: "count_list (record_line env idx p) (CHR 0x0A) = 1"
    using Cons.prems(1) by (simp add: record_line_def)
  from Cons.prems(2) have a: "\<not> has_surrogate (record_line env idx p)"
    by (auto split: if_splits)
  with Cons.prems(2)
  have r: "fst (write_entries env (idx + 1) ps (fp @ record_line env idx p)) = Return ()"
    by simp
  show ?case
    using a c Cons.IH [OF Cons.prems(1) r] by simp
qed

lemma accepts_utf8: "accepts (demo_env imported utf8_stdout a) args"
  by (simp add: accepts_iff demo_env_def utf8_stdout_def list_all_iff)

subsection \<open>The claims about the batch script\<close>







text \<open>
  C10. When a non-empty list is loaded (and that is printed) and the file can be
  opened, the run ends with the JSONL file holding what \<open>write_jsonl\<close> wrote,
  whatever was there before and whatever happens afterwards; when every record can be
  encoded that is the fresh serialisation of all the problems. Once the file is
  announced as written, the upload is called in a state where the file already holds
  it; and when the upload raises, the status is 1 (\<open>main\<close> returns 1 when standard
  output accepts the error line) and the file is still the new one.
\<close>

theorem main_overwrites_before_upload:
  assumes "import_problems env = Inr (PyList ps)" and "ps \<noteq> []"
    and "accepts env [''Loaded '' @ str_nat (length ps) @ '' problems.'']"
    and "open_w env JSONL_PATH = None"
  shows "files (snd (main env sys)) =
           (files sys)(JSONL_PATH \<mapsto> snd (write_entries env 1 ps [])) \<and>
         (encodable env ps \<longrightarrow>
            snd (write_entries env 1 ps []) =
              concat (map (\<lambda>i. record_line env (i + 1) (ps ! i)) [0..<length ps])) \<and>
         (encodable env ps \<and>
          accepts env
            [''Written JSONL file to '' @ [CHR 0x27] @ JSONL_PATH @ [CHR 0x27] @ ''.''] \<longrightarrow>
            main env sys =
              (case create_and_send_batch env JSONL_PATH (written env ps sys) of
                 (Raise e, sys5) \<Rightarrow>
                   then_run
                     (print_stdout env
                        [''Error while communicating with OpenAI API:'', exn_str e] sys5)
                     (\<lambda>u sys6. (Return 1, sys6))
               | (Exit n, sys5) \<Rightarrow> (Exit n, sys5)
               | (Return u, sys5) \<Rightarrow> (Return 0, sys5)) \<and>
            files (written env ps sys) JSONL_PATH = Some (snd (write_entries env 1 ps [])) \<and>
            (fst (create_and_send_batch env JSONL_PATH (written env ps sys)) = Raise e \<longrightarrow>
               exit_status (fst (main env sys)) = 1 \<and>
               (accepts env [''Error while communicating with OpenAI API:'', exn_str e] \<longrightarrow>
                  fst (main env sys) = Return 1) \<and>
               files (snd (main env sys)) JSONL_PATH =
                 Some (snd (write_entries env 1 ps []))))"
proof (intro conjI impI)
  show f: "files (snd (main env sys)) =
           (files sys)(JSONL_PATH \<mapsto> snd (write_entries env 1 ps []))"
    using assms by (rule main_files)
  {
    assume "encodable env ps"
    then have "\<forall>i < length ps. \<not> has_surrogate (record_line env (1 + i) (ps ! i))"
      by (simp add: encodable_iff)
    then have "write_entries env 1 ps [] =
       (Return (),
        [] @ concat (map (\<lambda>i. record_line env (1 + i) (ps ! i)) [0..<length ps]))"
      by (rule write_entries_encodable)
    then show "snd (write_entries env 1 ps []) =
              concat (map (\<lambda>i. record_line env (i + 1) (ps ! i)) [0..<length ps])"
      by simp
  }
  {
    assume a: "encodable env ps \<and>
          accepts env
            [''Written JSONL file to '' @ [CHR 0x27] @ JSONL_PATH @ [CHR 0x27] @ ''.'']"
    then have h: "encodable env ps"
      "accepts env
            [''Written JSONL file to '' @ [CHR 0x27] @ JSONL_PATH @ [CHR 0x27] @ ''.'']"
      by blast+
    show "main env sys =
              (case create_and_send_batch env JSONL_PATH (written env ps sys) of
                 (Raise e, sys5) \<Rightarrow>
                   then_run
                     (print_stdout env
                        [''Error while communicating with OpenAI API:'', exn_str e] sys5)
                     (\<lambda>u sys6. (Return 1, sys6))
               | (Exit n, sys5) \<Rightarrow> (Exit n, sys5)
               | (Return u, sys5) \<Rightarrow> (Return 0, sys5))"
      using assms h by (rule main_proceeds)
    show "files (written env ps sys) JSONL_PATH = Some (snd (write_entries env 1 ps []))"
      by (simp add: files_written)
    show "files (snd (main env sys)) JSONL_PATH = Some (snd (write_entries env 1 ps []))"
      using f by simp
    assume r: "fst (create_and_send_batch env JSONL_PATH (written env ps sys)) = Raise e"
    have "fst (main env sys) \<noteq> Return 0"
      using r by (simp add: main_after_upload [OF assms h] split: option.splits)
    then show "exit_status (fst (main env sys)) = 1"
      using main_status [of env sys] by blast
    assume "accepts env [''Error while communicating with OpenAI API:'', exn_str e]"
    with main_logs_error [OF assms h r] show "fst (main env sys) = Return 1" by blast
  }
qed

theorem main_overwrites_before_upload_witness:
  "import_problems (demo_env (Inr (PyList [''What is 2+2?''])) utf8_stdout api_down) =
     Inr (PyList [''What is 2+2?'']) \<and>
   [''What is 2+2?''] \<noteq> [] \<and>
   accepts (demo_env (Inr (PyList [''What is 2+2?''])) utf8_stdout api_down)
     [''Loaded '' @ str_nat (length [''What is 2+2?'']) @ '' problems.''] \<and>
   open_w (demo_env (Inr (PyList [''What is 2+2?''])) utf8_stdout api_down) JSONL_PATH = None \<and>
   encodable (demo_env (Inr (PyList [''What is 2+2?''])) utf8_stdout api_down)
     [''What is 2+2?''] \<and>
   fst (create_and_send_batch
          (demo_env (Inr (PyList [''What is 2+2?''])) utf8_stdout api_down) JSONL_PATH
          (written (demo_env (Inr (PyList [''What is 2+2?''])) utf8_stdout api_down)
             [''What is 2+2?''] demo_sys)) =
     Raise (Exception ''Connection error.'') \<and>
   files demo_sys JSONL_PATH = Some ''stale'' \<and>
   fst (main (demo_env (Inr (PyList [''What is 2+2?''])) utf8_stdout api_down) demo_sys) =
     Return 1 \<and>
   files (snd (main (demo_env (Inr (PyList [''What is 2+2?''])) utf8_stdout api_down)
                 demo_sys)) JSONL_PATH =
     Some (''{\"custom_id\": \"request-1\", \"method\": \"POST\", \"url\": \"/v1/chat/completions\", \"body\": {\"model\": \"o4-mini\", \"messages\": [{\"role\": \"user\", \"content\": \"What is 2+2?\"}], \"reasoning_effort\": \"high\"}}'' @
           [CHR 0x0A])"
proof -
  let ?down = "demo_env (Inr (PyList [''What is 2+2?''])) utf8_stdout api_down"
  let ?ps = "[''What is 2+2?'']"
  have i: "import_problems ?down = Inr (PyList ?ps)"
    by (simp add: demo_env_def)
  have n: "?ps \<noteq> []" by simp
  have a: "accepts ?down [''Loaded '' @ str_nat (length ?ps) @ '' problems.'']"
    by (rule accepts_utf8)
  have o: "open_w ?down JSONL_PATH = None" by (simp add: demo_env_def)
  have en: "encodable ?down ?ps" by code_simp
  have r: "fst (create_and_send_batch ?down JSONL_PATH (written ?down ?ps demo_sys)) =
             Raise (Exception ''Connection error.'')"
    by (rule api_raises [where content = "snd (write_entries ?down 1 ?ps [])"])
       (simp_all add: accepts_utf8 files_written, simp_all add: demo_env_def api_down_def)
  have s: "files demo_sys JSONL_PATH = Some ''stale''"
    by (simp add: demo_sys_def)
  have c: "snd (write_entries ?down 1 ?ps []) =
     ''{\"custom_id\": \"request-1\", \"method\": \"POST\", \"url\": \"/v1/chat/completions\", \"body\": {\"model\": \"o4-mini\", \"messages\": [{\"role\": \"user\", \"content\": \"What is 2+2?\"}], \"reasoning_effort\": \"high\"}}'' @
     [CHR 0x0A]"
    by code_simp
  note t = main_overwrites_before_upload
             [OF i n a o, of demo_sys "Exception ''Connection error.''"]
  from t en r accepts_utf8 [of _ api_down]
  have m: "fst (main ?down demo_sys) = Return 1"
    by blast
  from t en r accepts_utf8 [of _ api_down]
  have "files (snd (main ?down demo_sys)) JSONL_PATH =
          Some (snd (write_entries ?down 1 ?ps []))"
    by blast
  then have f: "files (snd (main ?down demo_sys)) JSONL_PATH =
     Some (''{\"custom_id\": \"request-1\", \"method\": \"POST\", \"url\": \"/v1/chat/completions\", \"body\": {\"model\": \"o4-mini\", \"messages\": [{\"role\": \"user\", \"content\": \"What is 2+2?\"}], \"reasoning_effort\": \"high\"}}'' @
           [CHR 0x0A])"
    by (simp only: c)
  from i n a o en r s m f show ?thesis
    by blast
qed

end
